theory Spec2Isabelle
  imports Main
begin

section \<open>Python values and exceptions\<close>

text \<open>
  The two exception classes that \<^verbatim>\<open>tic_tac_toe_game.py\<close> can raise: \<^verbatim>\<open>IndexError\<close> comes
  from list subscripting, \<^verbatim>\<open>ValueError\<close> is raised explicitly and carries its message.
\<close>

datatype error = IndexError | ValueError string

type_synonym 'a result = "error + 'a"

text \<open>
  A cell holds \<^verbatim>\<open>None\<close> (HOL \<open>None\<close>) or a marker, a Python string (\<open>Some s\<close>).
  The marker argument of a method is any such value, \<^verbatim>\<open>None\<close> included, since the code
  never checks it.
\<close>

type_synonym cell = "string option"

text \<open>\<^verbatim>\<open>Board.board\<close>: a list of row lists. Each row is a list object of its own.\<close>

type_synonym board = "cell list list"

subsection \<open>List subscripting\<close>

text \<open>
  \<^verbatim>\<open>xs[i]\<close> on a list of length \<open>n\<close>: indices \<open>0 .. n-1\<close> address from the front,
  \<open>-n .. -1\<close> from the back, every other index raises \<^verbatim>\<open>IndexError\<close>.
\<close>

definition norm_index :: "nat \<Rightarrow> int \<Rightarrow> nat option" where
  "norm_index n i =
     (if 0 \<le> i \<and> i < int n then Some (nat i)
      else if - int n \<le> i \<and> i < 0 then Some (nat (i + int n))
      else None)"

definition getitem :: "'a list \<Rightarrow> int \<Rightarrow> 'a result" where
  "getitem xs i =
     (case norm_index (length xs) i of
        None \<Rightarrow> Inl IndexError
      | Some j \<Rightarrow> Inr (xs ! j))"

definition setitem :: "'a list \<Rightarrow> int \<Rightarrow> 'a \<Rightarrow> 'a list result" where
  "setitem xs i v =
     (case norm_index (length xs) i of
        None \<Rightarrow> Inl IndexError
      | Some j \<Rightarrow> Inr (xs[j := v]))"

text \<open>\<^verbatim>\<open>self.board[row][col]\<close> as an expression.\<close>

definition getitem2 :: "board \<Rightarrow> int \<Rightarrow> int \<Rightarrow> cell result" where
  "getitem2 b row col =
     (case getitem b row of
        Inl e \<Rightarrow> Inl e
      | Inr r \<Rightarrow> getitem r col)"

text \<open>
  \<^verbatim>\<open>self.board[row][col] = v\<close> as a statement: the row object is fetched, then
  updated in place. The result pairs the outcome with the board afterwards.
\<close>

definition setitem2 :: "board \<Rightarrow> int \<Rightarrow> int \<Rightarrow> cell \<Rightarrow> unit result \<times> board" where
  "setitem2 b row col v =
     (case getitem b row of
        Inl e \<Rightarrow> (Inl e, b)
      | Inr r \<Rightarrow>
          (case setitem r col v of
             Inl e \<Rightarrow> (Inl e, b)
           | Inr r' \<Rightarrow>
               (case setitem b row r' of
                  Inl e \<Rightarrow> (Inl e, b)
                | Inr b' \<Rightarrow> (Inr (), b'))))"

subsection \<open>Formatting\<close>

text \<open>\<^verbatim>\<open>str(n)\<close> for an integer, as the f-string of \<^verbatim>\<open>place_marker\<close> formats it.\<close>

fun str_nat :: "nat \<Rightarrow> string" where
  "str_nat n =
     (if n < 10 then [''0123456789'' ! n]
      else str_nat (n div 10) @ [''0123456789'' ! (n mod 10)])"

declare str_nat.simps [simp del]

definition str_int :: "int \<Rightarrow> string" where
  "str_int i = (if i < 0 then ''-'' @ str_nat (nat (- i)) else str_nat (nat i))"

text \<open>\<^verbatim>\<open>sep.join(xs)\<close>.\<close>

fun join :: "string \<Rightarrow> string list \<Rightarrow> string" where
  "join sep [] = []"
| "join sep [x] = x"
| "join sep (x # y # ys) = x @ sep @ join sep (y # ys)"

definition newline :: string where
  "newline = [CHR 0x0A]"

text \<open>\<^verbatim>\<open>range(3)\<close>, and the pairs the nested loops over it visit, in their order.\<close>

definition range3 :: "int list" where
  "range3 = [0, 1, 2]"

definition coords :: "(int \<times> int) list" where
  "coords = [(row, col). row \<leftarrow> range3, col \<leftarrow> range3]"

section \<open>Board\<close>

text \<open>\<^verbatim>\<open>Board.__init__\<close>: three fresh rows of three \<^verbatim>\<open>None\<close>.\<close>

definition Board_init :: board where
  "Board_init = map (\<lambda>_. map (\<lambda>_. None) range3) range3"

definition get_cell :: "board \<Rightarrow> int \<Rightarrow> int \<Rightarrow> cell result" where
  "get_cell b row col = getitem2 b row col"

definition occupied_message :: "int \<Rightarrow> int \<Rightarrow> string" where
  "occupied_message row col =
     ''Cell ('' @ str_int row @ '', '' @ str_int col @ '') already occupied''"

text \<open>
  \<^verbatim>\<open>Board.place_marker\<close>. The result is the exception raised, if any, together with
  the board as it is after the call.
\<close>

definition place_marker :: "board \<Rightarrow> int \<Rightarrow> int \<Rightarrow> cell \<Rightarrow> unit result \<times> board" where
  "place_marker b row col marker =
     (case getitem2 b row col of
        Inl e \<Rightarrow> (Inl e, b)
      | Inr (Some _) \<Rightarrow> (Inl (ValueError (occupied_message row col)), b)
      | Inr None \<Rightarrow> setitem2 b row col marker)"

text \<open>\<^verbatim>\<open>Board.is_full\<close>: the first \<^verbatim>\<open>None\<close> met returns \<^verbatim>\<open>False\<close>.\<close>

fun is_full_loop :: "board \<Rightarrow> (int \<times> int) list \<Rightarrow> bool result" where
  "is_full_loop b [] = Inr True"
| "is_full_loop b ((row, col) # rest) =
     (case getitem2 b row col of
        Inl e \<Rightarrow> Inl e
      | Inr None \<Rightarrow> Inr False
      | Inr (Some _) \<Rightarrow> is_full_loop b rest)"

definition is_full :: "board \<Rightarrow> bool result" where
  "is_full b = is_full_loop b coords"

text \<open>\<^verbatim>\<open>Board.available_moves\<close>: \<open>moves\<close> is the list built so far.\<close>

fun available_moves_loop ::
  "board \<Rightarrow> (int \<times> int) list \<Rightarrow> (int \<times> int) list \<Rightarrow> (int \<times> int) list result" where
  "available_moves_loop b [] moves = Inr moves"
| "available_moves_loop b ((row, col) # rest) moves =
     (case getitem2 b row col of
        Inl e \<Rightarrow> Inl e
      | Inr None \<Rightarrow> available_moves_loop b rest (moves @ [(row, col)])
      | Inr (Some _) \<Rightarrow> available_moves_loop b rest moves)"

definition available_moves :: "board \<Rightarrow> (int \<times> int) list result" where
  "available_moves b = available_moves_loop b coords []"

text \<open>
  \<^verbatim>\<open>Board.__str__\<close>: the inner loop over the columns extends \<open>row_str\<close>, the outer
  loop over the rows extends \<open>result\<close>.
\<close>

fun str_cols :: "board \<Rightarrow> int \<Rightarrow> int list \<Rightarrow> string \<Rightarrow> string result" where
  "str_cols b row [] row_str = Inr row_str"
| "str_cols b row (col # cols) row_str =
     (case getitem2 b row col of
        Inl e \<Rightarrow> Inl e
      | Inr cell \<Rightarrow>
          (let s = (case cell of None \<Rightarrow> row_str @ '' '' | Some m \<Rightarrow> row_str @ m)
           in str_cols b row cols (if col < 2 then s @ ''|'' else s)))"

fun str_rows :: "board \<Rightarrow> int list \<Rightarrow> string list \<Rightarrow> string list result" where
  "str_rows b [] result = Inr result"
| "str_rows b (row # rows) result =
     (case str_cols b row range3 [] of
        Inl e \<Rightarrow> Inl e
      | Inr row_str \<Rightarrow>
          str_rows b rows
            (if row < 2 then result @ [row_str] @ [''-+-+-''] else result @ [row_str]))"

definition Board_str :: "board \<Rightarrow> string result" where
  "Board_str b =
     (case str_rows b range3 [] of
        Inl e \<Rightarrow> Inl e
      | Inr result \<Rightarrow> Inr (join newline result))"

section \<open>GameLogic\<close>

text \<open>
  \<^verbatim>\<open>all(self.board.get_cell(row, col) == marker for ...)\<close> over the given cells:
  it stops at the first cell that differs.
\<close>

fun all_equal :: "board \<Rightarrow> (int \<times> int) list \<Rightarrow> cell \<Rightarrow> bool result" where
  "all_equal b [] marker = Inr True"
| "all_equal b ((row, col) # rest) marker =
     (case get_cell b row col of
        Inl e \<Rightarrow> Inl e
      | Inr v \<Rightarrow> if v = marker then all_equal b rest marker else Inr False)"

text \<open>The loop over the rows; \<open>Inr False\<close> means that it ended without returning.\<close>

fun check_rows :: "board \<Rightarrow> int list \<Rightarrow> cell \<Rightarrow> bool result" where
  "check_rows b [] marker = Inr False"
| "check_rows b (row # rows) marker =
     (case all_equal b [(row, col). col \<leftarrow> range3] marker of
        Inl e \<Rightarrow> Inl e
      | Inr w \<Rightarrow> if w then Inr True else check_rows b rows marker)"

text \<open>The loop over the columns.\<close>

fun check_cols :: "board \<Rightarrow> int list \<Rightarrow> cell \<Rightarrow> bool result" where
  "check_cols b [] marker = Inr False"
| "check_cols b (col # cols) marker =
     (case all_equal b [(row, col). row \<leftarrow> range3] marker of
        Inl e \<Rightarrow> Inl e
      | Inr w \<Rightarrow> if w then Inr True else check_cols b cols marker)"

definition check_win :: "board \<Rightarrow> cell \<Rightarrow> bool result" where
  "check_win b marker =
     (case check_rows b range3 marker of
        Inl e \<Rightarrow> Inl e
      | Inr w1 \<Rightarrow>
          if w1 then Inr True
          else
            (case check_cols b range3 marker of
               Inl e \<Rightarrow> Inl e
             | Inr w2 \<Rightarrow>
                 if w2 then Inr True
                 else
                   (case all_equal b [(i, i). i \<leftarrow> range3] marker of
                      Inl e \<Rightarrow> Inl e
                    | Inr w3 \<Rightarrow>
                        if w3 then Inr True
                        else
                          (case all_equal b [(i, 2 - i). i \<leftarrow> range3] marker of
                             Inl e \<Rightarrow> Inl e
                           | Inr w4 \<Rightarrow> if w4 then Inr True else Inr False))))"

text \<open>\<^verbatim>\<open>check_draw\<close>: the two \<^verbatim>\<open>and\<close> evaluate from the left and stop at the first false.\<close>

definition check_draw :: "board \<Rightarrow> bool result" where
  "check_draw b =
     (case is_full b of
        Inl e \<Rightarrow> Inl e
      | Inr full \<Rightarrow>
          if \<not> full then Inr False
          else
            (case check_win b (Some ''X'') of
               Inl e \<Rightarrow> Inl e
             | Inr wx \<Rightarrow>
                 if wx then Inr False
                 else
                   (case check_win b (Some ''O'') of
                      Inl e \<Rightarrow> Inl e
                    | Inr wo \<Rightarrow> Inr (\<not> wo))))"

section \<open>RandomBot\<close>

text \<open>
  \<^verbatim>\<open>random.choice(seq)\<close>: the generator's draw \<open>k\<close> selects the element at index
  \<open>k mod len(seq)\<close>, so every element can be selected; an empty sequence raises
  \<^verbatim>\<open>IndexError\<close>.
\<close>

definition choice :: "nat \<Rightarrow> 'a list \<Rightarrow> 'a result" where
  "choice k xs = (if xs = [] then Inl IndexError else Inr (xs ! (k mod length xs)))"

text \<open>
  \<^verbatim>\<open>RandomBot.make_move\<close> of a bot whose \<^verbatim>\<open>self.marker\<close> is \<open>marker\<close>, with the
  generator drawing \<open>k\<close>. The result is the returned pair or the exception, and the board
  afterwards.
\<close>

definition make_move :: "cell \<Rightarrow> nat \<Rightarrow> board \<Rightarrow> (int \<times> int) result \<times> board" where
  "make_move marker k b =
     (case available_moves b of
        Inl e \<Rightarrow> (Inl e, b)
      | Inr moves \<Rightarrow>
          if moves = [] then (Inl (ValueError ''No available moves''), b)
          else
            (case choice k moves of
               Inl e \<Rightarrow> (Inl e, b)
             | Inr (row, col) \<Rightarrow>
                 (case place_marker b row col marker of
                    (Inl e, b') \<Rightarrow> (Inl e, b')
                  | (Inr _, b') \<Rightarrow> (Inr (row, col), b'))))"

section \<open>GameRunner\<close>

text \<open>
  The fields of \<^verbatim>\<open>GameRunner\<close>. A bot is its marker; \<^verbatim>\<open>game_logic\<close> holds the same
  board object as \<^verbatim>\<open>board\<close> and needs no field of its own.
\<close>

record GameRunner =
  board :: board
  bot_x :: cell
  bot_o :: cell
  current_player :: string

definition GameRunner_init :: "board \<Rightarrow> cell \<Rightarrow> cell \<Rightarrow> GameRunner" where
  "GameRunner_init b bx bo =
     \<lparr>board = b, bot_x = bx, bot_o = bo, current_player = ''X''\<rparr>"

text \<open>
  How \<^verbatim>\<open>run_game\<close> ends: at one of its three \<^verbatim>\<open>break\<close> statements (a win, a draw, a
  caught \<^verbatim>\<open>ValueError\<close>), or with an exception that it does not catch.
\<close>

datatype ending = Won string | Draw | Stopped error | Raised error

text \<open>
  The \<^verbatim>\<open>while True\<close> loop. \<open>rnd n\<close> is the draw of the generator at its \<open>n\<close>-th use,
  \<open>n\<close> counts the moves made so far, \<open>out\<close> collects the arguments of the \<^verbatim>\<open>print\<close>
  calls. The result is the ending, the number of moves made, the runner and the output.
  \<^verbatim>\<open>time.sleep(1)\<close> changes none of these. The loop has no bound of its own, so the
  function is partial: \<open>None\<close> stands for a run that never ends.
\<close>

partial_function (option) run_loop ::
  "(nat \<Rightarrow> nat) \<Rightarrow> nat \<Rightarrow> GameRunner \<Rightarrow> string list \<Rightarrow>
     (ending \<times> nat \<times> GameRunner \<times> string list) option" where
  "run_loop rnd n g out =
     (let out1 = out @ [newline @ ''Player '' @ current_player g @ '':''];
          mv = (if current_player g = ''X'' then make_move (bot_x g) (rnd n) (board g)
                else make_move (bot_o g) (rnd n) (board g));
          g1 = g\<lparr>board := snd mv\<rparr>
      in case fst mv of
           Inl (ValueError msg) \<Rightarrow>
             Some (Stopped (ValueError msg), n, g1, out1 @ [''Error: '' @ msg])
         | Inl IndexError \<Rightarrow> Some (Raised IndexError, n, g1, out1)
         | Inr _ \<Rightarrow>
             (case Board_str (board g1) of
                Inl e \<Rightarrow> Some (Raised e, Suc n, g1, out1)
              | Inr s \<Rightarrow>
                  (case check_win (board g1) (Some (current_player g1)) of
                     Inl e \<Rightarrow> Some (Raised e, Suc n, g1, out1 @ [s])
                   | Inr w \<Rightarrow>
                       if w then
                         Some (Won (current_player g1), Suc n, g1,
                           out1 @ [s, newline @ ''PLAYER '' @ current_player g1 @ '' WON!''])
                       else
                         (case check_draw (board g1) of
                            Inl e \<Rightarrow> Some (Raised e, Suc n, g1, out1 @ [s])
                          | Inr d \<Rightarrow>
                              if d then
                                Some (Draw, Suc n, g1, out1 @ [s, newline @ ''GAME DRAW!''])
                              else
                                run_loop rnd (Suc n)
                                  (g1\<lparr>current_player :=
                                        if current_player g1 = ''X'' then ''O'' else ''X''\<rparr>)
                                  (out1 @ [s])))))"

declare run_loop.simps [code]

text \<open>\<^verbatim>\<open>GameRunner.run_game\<close>: the three opening prints, then the loop.\<close>

definition run_game ::
  "(nat \<Rightarrow> nat) \<Rightarrow> GameRunner \<Rightarrow> (ending \<times> nat \<times> GameRunner \<times> string list) option" where
  "run_game rnd g =
     (let out = [''Starting Tic-Tac-Toe Bot vs Bot game:'', newline @ ''Initial board:'']
      in case Board_str (board g) of
           Inl e \<Rightarrow> Some (Raised e, 0, g, out)
         | Inr s \<Rightarrow> run_loop rnd 0 g (out @ [s]))"

text \<open>
  \<^verbatim>\<open>main\<close>: a bot for \<^verbatim>\<open>X\<close>, a bot for \<^verbatim>\<open>O\<close>, a new board, and the run. Its first
  print, before the runner exists, is left out of \<open>out\<close>.
\<close>

definition main :: "(nat \<Rightarrow> nat) \<Rightarrow> (ending \<times> nat \<times> GameRunner \<times> string list) option" where
  "main rnd = run_game rnd (GameRunner_init Board_init (Some ''X'') (Some ''O''))"

section \<open>Notions used by the statements\<close>

text \<open>
  The shape that \<^verbatim>\<open>Board.__init__\<close> sets up and every method keeps: three rows of
  three cells.
\<close>

definition wf_board :: "board \<Rightarrow> bool" where
  "wf_board b = (length b = 3 \<and> (\<forall>r \<in> set b. length r = 3))"

text \<open>
  The eight winning lines as the specification lists them: the three rows, the three
  columns, the main diagonal and the anti-diagonal. A marker has a line when all three
  cells of one of them equal it.
\<close>

definition winning_lines :: "(nat \<times> nat) list list" where
  "winning_lines =
     [[(0, 0), (0, 1), (0, 2)], [(1, 0), (1, 1), (1, 2)], [(2, 0), (2, 1), (2, 2)],
      [(0, 0), (1, 0), (2, 0)], [(0, 1), (1, 1), (2, 1)], [(0, 2), (1, 2), (2, 2)],
      [(0, 0), (1, 1), (2, 2)],
      [(0, 2), (1, 1), (2, 0)]]"

definition has_line :: "board \<Rightarrow> cell \<Rightarrow> bool" where
  "has_line b marker =
     (\<exists>line \<in> set winning_lines. \<forall>(i, j) \<in> set line. b ! i ! j = marker)"

text \<open>A full board, in the specification's words: no empty cell remains.\<close>

definition no_empty_cell :: "board \<Rightarrow> bool" where
  "no_empty_cell b = (\<forall>r \<in> set b. \<forall>c \<in> set r. c \<noteq> None)"

text \<open>
  The empty cells of a three-by-three board in row-major order: what
  \<^verbatim>\<open>available_moves\<close> returns on such a board.
\<close>

definition empties :: "board \<Rightarrow> (int \<times> int) list" where
  "empties b = filter (\<lambda>(row, col). b ! nat row ! nat col = None) coords"

text \<open>
  The operations of \<^verbatim>\<open>Board\<close> and the board each leaves behind. Only
  \<^verbatim>\<open>place_marker\<close> contains an assignment; the other four methods only read. A board is
  reachable when it comes from a new board by some sequence of these operations.
\<close>

datatype board_op =
  GetCell int int | PlaceMarker int int cell | IsFull | AvailableMoves | Str

fun board_after :: "board_op \<Rightarrow> board \<Rightarrow> board" where
  "board_after (GetCell row col) b = b"
| "board_after (PlaceMarker row col marker) b = snd (place_marker b row col marker)"
| "board_after IsFull b = b"
| "board_after AvailableMoves b = b"
| "board_after Str b = b"

inductive reachable :: "board \<Rightarrow> bool" where
  fresh: "reachable Board_init"
| step: "reachable b \<Longrightarrow> reachable (board_after op b)"

code_pred reachable .

section \<open>Boards of three by three\<close>

lemmas index_defs = getitem2_def getitem_def setitem2_def setitem_def norm_index_def

lemma wf_board_shape:
  assumes "wf_board b"
  obtains a0 a1 a2 b0 b1 b2 c0 c1 c2 where
    "b = [[a0, a1, a2], [b0, b1, b2], [c0, c1, c2]]"
proof -
  have len3: "\<exists>x y z. xs = [x, y, z]" if "length xs = 3" for xs :: "'a list"
    using that by (auto simp: length_Suc_conv numeral_3_eq_3)
  from assms obtain r0 r1 r2 where b: "b = [r0, r1, r2]"
    using len3 [of b] by (auto simp: wf_board_def)
  with assms have "length r0 = 3" "length r1 = 3" "length r2 = 3"
    by (simp_all add: wf_board_def)
  then show thesis
    using len3 [of r0] len3 [of r1] len3 [of r2] b that by blast
qed

lemma wf_Board_init: "wf_board Board_init"
  by (simp add: wf_board_def Board_init_def range3_def)

lemma norm_index_less: "norm_index n i = Some j \<Longrightarrow> j < n"
  by (auto simp: norm_index_def split: if_splits)

lemma wf_board_row: "wf_board b \<Longrightarrow> i < 3 \<Longrightarrow> length (b ! i) = 3"
  by (simp add: wf_board_def)

text \<open>On such a board a double subscript fails exactly when one of the indices does.\<close>

lemma getitem2_wf:
  assumes "wf_board b"
  shows "getitem2 b row col =
     (case norm_index 3 row of
        None \<Rightarrow> Inl IndexError
      | Some i \<Rightarrow>
          (case norm_index 3 col of
             None \<Rightarrow> Inl IndexError
           | Some j \<Rightarrow> Inr (b ! i ! j)))"
proof -
  have len: "length b = 3"
    using assms by (simp add: wf_board_def)
  show ?thesis
  proof (cases "norm_index 3 row")
    case None
    then show ?thesis by (simp add: getitem2_def getitem_def len)
  next
    case (Some i)
    then have "length (b ! i) = 3"
      using assms norm_index_less wf_board_row by blast
    with Some show ?thesis
      by (simp add: getitem2_def getitem_def len split: option.splits)
  qed
qed

lemma setitem2_wf:
  assumes "wf_board b" "norm_index 3 row = Some i" "norm_index 3 col = Some j"
  shows "setitem2 b row col v = (Inr (), b[i := (b ! i)[j := v]])"
proof -
  have len: "length b = 3"
    using assms(1) by (simp add: wf_board_def)
  have "length (b ! i) = 3"
    using assms(1,2) norm_index_less wf_board_row by blast
  then show ?thesis
    using assms(2,3) by (simp add: setitem2_def setitem_def getitem_def len)
qed

lemma place_marker_wf:
  assumes "wf_board b"
  shows "place_marker b row col marker =
     (case norm_index 3 row of
        None \<Rightarrow> (Inl IndexError, b)
      | Some i \<Rightarrow>
          (case norm_index 3 col of
             None \<Rightarrow> (Inl IndexError, b)
           | Some j \<Rightarrow>
               (case b ! i ! j of
                  Some _ \<Rightarrow> (Inl (ValueError (occupied_message row col)), b)
                | None \<Rightarrow> (Inr (), b[i := (b ! i)[j := marker]]))))"
  using assms
  by (auto simp: place_marker_def getitem2_wf setitem2_wf split: option.splits)

lemma wf_board_update: "wf_board b \<Longrightarrow> i < 3 \<Longrightarrow> wf_board (b[i := (b ! i)[j := v]])"
  by (auto simp: wf_board_def dest!: set_update_subset_insert [THEN subsetD])

lemma cell_update:
  assumes "wf_board b" "i < 3" "j < 3"
  shows "b[i := (b ! i)[j := v]] ! i' ! j' = (if i' = i \<and> j' = j then v else b ! i' ! j')"
proof -
  have "length b = 3" "length (b ! i) = 3"
    using assms by (simp_all add: wf_board_def)
  with assms(2,3) show ?thesis
    by (cases "i' = i"; cases "j' = j") simp_all
qed

lemma place_marker_preserves_wf:
  "wf_board b \<Longrightarrow> wf_board (snd (place_marker b row col marker))"
  by (auto simp: place_marker_wf wf_board_update dest: norm_index_less split: option.splits)

subsection \<open>The win check on an explicit board\<close>

lemma check_win_shape:
  "check_win [[a0, a1, a2], [b0, b1, b2], [c0, c1, c2]] m =
     Inr ((a0 = m \<and> a1 = m \<and> a2 = m) \<or> (b0 = m \<and> b1 = m \<and> b2 = m) \<or>
          (c0 = m \<and> c1 = m \<and> c2 = m) \<or> (a0 = m \<and> b0 = m \<and> c0 = m) \<or>
          (a1 = m \<and> b1 = m \<and> c1 = m) \<or> (a2 = m \<and> b2 = m \<and> c2 = m) \<or>
          (a0 = m \<and> b1 = m \<and> c2 = m) \<or> (a2 = m \<and> b1 = m \<and> c0 = m))"
  by (simp add: check_win_def range3_def get_cell_def index_defs)

lemma has_line_shape:
  "has_line [[a0, a1, a2], [b0, b1, b2], [c0, c1, c2]] m =
     ((a0 = m \<and> a1 = m \<and> a2 = m) \<or> (b0 = m \<and> b1 = m \<and> b2 = m) \<or>
      (c0 = m \<and> c1 = m \<and> c2 = m) \<or> (a0 = m \<and> b0 = m \<and> c0 = m) \<or>
      (a1 = m \<and> b1 = m \<and> c1 = m) \<or> (a2 = m \<and> b2 = m \<and> c2 = m) \<or>
      (a0 = m \<and> b1 = m \<and> c2 = m) \<or> (a2 = m \<and> b1 = m \<and> c0 = m))"
  by (simp add: has_line_def winning_lines_def)

lemma check_win_wf: "wf_board b \<Longrightarrow> check_win b marker = Inr (has_line b marker)"
  by (erule wf_board_shape) (simp only: check_win_shape has_line_shape)

lemma is_full_shape:
  "is_full [[a0, a1, a2], [b0, b1, b2], [c0, c1, c2]] =
     Inr (a0 \<noteq> None \<and> a1 \<noteq> None \<and> a2 \<noteq> None \<and> b0 \<noteq> None \<and> b1 \<noteq> None \<and>
          b2 \<noteq> None \<and> c0 \<noteq> None \<and> c1 \<noteq> None \<and> c2 \<noteq> None)"
  by (simp add: is_full_def coords_def range3_def index_defs split: option.splits)

lemma is_full_wf: "wf_board b \<Longrightarrow> is_full b = Inr (no_empty_cell b)"
  by (erule wf_board_shape) (simp add: is_full_shape no_empty_cell_def)

lemma norm_index_3:
  "norm_index 3 i = (if - 3 \<le> i \<and> i \<le> 2 then Some (nat (i mod 3)) else None)"
proof -
  have "i + 3 = i mod 3" if "- 3 \<le> i" "i < 0"
    using that by presburger
  moreover have "i = i mod 3" if "0 \<le> i" "i \<le> 2"
    using that by simp
  ultimately show ?thesis
    by (auto simp: norm_index_def)
qed

subsection \<open>Empty cells and placements\<close>

lemma coords_range:
  "(row, col) \<in> set coords \<Longrightarrow>
     norm_index 3 row = Some (nat row) \<and> norm_index 3 col = Some (nat col)"
  by (auto simp: coords_def range3_def norm_index_def)

lemma available_moves_loop_wf:
  assumes "wf_board b" "set cs \<subseteq> set coords"
  shows "available_moves_loop b cs moves =
           Inr (moves @ filter (\<lambda>(row, col). b ! nat row ! nat col = None) cs)"
  using assms(2)
proof (induction cs arbitrary: moves)
  case Nil
  then show ?case by simp
next
  case (Cons p cs)
  obtain row col where p: "p = (row, col)"
    by (cases p)
  with Cons.prems have "(row, col) \<in> set coords"
    by simp
  then have "getitem2 b row col = Inr (b ! nat row ! nat col)"
    using assms(1) by (simp add: getitem2_wf coords_range)
  with Cons p show ?case
    by (simp split: option.splits)
qed

lemma available_moves_wf: "wf_board b \<Longrightarrow> available_moves b = Inr (empties b)"
  by (simp add: available_moves_def empties_def available_moves_loop_wf)

lemma empties_shape:
  "(empties [[a0, a1, a2], [b0, b1, b2], [c0, c1, c2]] = []) =
     (a0 \<noteq> None \<and> a1 \<noteq> None \<and> a2 \<noteq> None \<and> b0 \<noteq> None \<and> b1 \<noteq> None \<and>
      b2 \<noteq> None \<and> c0 \<noteq> None \<and> c1 \<noteq> None \<and> c2 \<noteq> None)"
  by (simp add: empties_def coords_def range3_def filter_empty_conv)

lemma no_empty_cell_wf: "wf_board b \<Longrightarrow> no_empty_cell b \<longleftrightarrow> empties b = []"
  by (erule wf_board_shape) (simp only: empties_shape, simp add: no_empty_cell_def)

lemma distinct_coords: "distinct coords"
  by (simp add: coords_def range3_def)

lemma mem_coords: "i < 3 \<Longrightarrow> j < 3 \<Longrightarrow> (int i, int j) \<in> set coords"
proof -
  assume "i < 3" "j < 3"
  then have "i = 0 \<or> i = 1 \<or> i = 2" "j = 0 \<or> j = 1 \<or> j = 2"
    by arith+
  then show ?thesis
    by (auto simp: coords_def range3_def)
qed

lemma length_filter_drop_one:
  assumes "distinct xs" "x \<in> set xs" "P x"
  shows "length (filter (\<lambda>y. y \<noteq> x \<and> P y) xs) + 1 = length (filter P xs)"
  using assms
proof (induction xs)
  case Nil
  then show ?case by simp
next
  case (Cons a xs)
  show ?case
  proof (cases "a = x")
    case True
    with Cons.prems have "x \<notin> set xs"
      by simp
    then have "filter (\<lambda>y. y \<noteq> x \<and> P y) xs = filter P xs"
      by (intro filter_cong) auto
    with True Cons.prems show ?thesis
      by simp
  next
    case False
    with Cons show ?thesis
      by simp
  qed
qed

lemma empties_update_marker:
  assumes "wf_board b" "i < 3" "j < 3" "b ! i ! j = None"
  shows "length (empties (b[i := (b ! i)[j := Some m]])) + 1 = length (empties b)"
proof -
  let ?x = "(int i, int j)"
  let ?P = "\<lambda>(row, col). b ! nat row ! nat col = None"
  have "filter (\<lambda>(row, col). b[i := (b ! i)[j := Some m]] ! nat row ! nat col = None) coords =
        filter (\<lambda>y. y \<noteq> ?x \<and> ?P y) coords"
  proof (rule filter_cong [OF refl])
    fix p
    assume "p \<in> set coords"
    then have "0 \<le> fst p" "0 \<le> snd p"
      by (auto simp: coords_def range3_def)
    then have "p \<noteq> ?x \<longleftrightarrow> \<not> (nat (fst p) = i \<and> nat (snd p) = j)"
      by (cases p) auto
    then show "(case p of (row, col) \<Rightarrow>
                  b[i := (b ! i)[j := Some m]] ! nat row ! nat col = None) =
               (p \<noteq> ?x \<and> ?P p)"
      using assms(1-3) by (cases p) (simp add: cell_update)
  qed
  moreover have "length (filter (\<lambda>y. y \<noteq> ?x \<and> ?P y) coords) + 1 = length (filter ?P coords)"
    using assms(2-4) by (intro length_filter_drop_one distinct_coords mem_coords) simp_all
  ultimately show ?thesis
    by (simp add: empties_def)
qed

lemma place_marker_success:
  assumes "wf_board b" "place_marker b row col marker = (Inr (), b')"
  obtains i j where "norm_index 3 row = Some i" "norm_index 3 col = Some j" "i < 3" "j < 3"
    "b ! i ! j = None" "b' = b[i := (b ! i)[j := marker]]"
proof -
  from assms obtain i j where ij: "norm_index 3 row = Some i" "norm_index 3 col = Some j"
    and rest: "b ! i ! j = None" "b' = b[i := (b ! i)[j := marker]]"
    by (auto simp: place_marker_wf split: option.splits)
  from ij have "i < 3" "j < 3"
    by (simp_all add: norm_index_less)
  with ij rest that show thesis
    by blast
qed

lemma reachable_wf: "reachable b \<Longrightarrow> wf_board b"
proof (induction rule: reachable.induct)
  case fresh
  show ?case by (rule wf_Board_init)
next
  case (step b op)
  then show ?case
    by (cases op) (simp_all add: place_marker_preserves_wf)
qed

lemma place_marker_keeps_marker:
  assumes "wf_board b" "get_cell b row col = Inr (Some m)"
  shows "get_cell (snd (place_marker b r c marker)) row col = Inr (Some m)"
proof (cases "fst (place_marker b r c marker)")
  case (Inl e)
  then have "snd (place_marker b r c marker) = b"
    using assms(1) by (auto simp: place_marker_wf split: option.splits)
  with assms(2) show ?thesis
    by simp
next
  case (Inr u)
  then have "place_marker b r c marker = (Inr (), snd (place_marker b r c marker))"
    by (simp add: prod_eq_iff)
  with assms(1) obtain i j where ij: "i < 3" "j < 3" "b ! i ! j = None"
    and b': "snd (place_marker b r c marker) = b[i := (b ! i)[j := marker]]"
    by (auto elim: place_marker_success)
  from assms obtain i' j' where rc: "norm_index 3 row = Some i'" "norm_index 3 col = Some j'"
    and v: "b ! i' ! j' = Some m"
    by (auto simp: get_cell_def getitem2_wf split: option.splits)
  from v ij(3) have "\<not> (i' = i \<and> j' = j)"
    by auto
  then have "b[i := (b ! i)[j := marker]] ! i' ! j' = Some m"
    using assms(1) ij(1,2) v by (auto simp: cell_update)
  moreover have "wf_board (b[i := (b ! i)[j := marker]])"
    using assms(1) ij(1) by (rule wf_board_update)
  ultimately show ?thesis
    using rc b' by (simp add: get_cell_def getitem2_wf)
qed

lemma board_after_keeps_marker:
  "wf_board b \<Longrightarrow> get_cell b row col = Inr (Some m) \<Longrightarrow>
     get_cell (board_after op b) row col = Inr (Some m)"
  by (cases op) (simp_all add: place_marker_keeps_marker)

lemma board_after_wf: "wf_board b \<Longrightarrow> wf_board (board_after op b)"
  by (cases op) (simp_all add: place_marker_preserves_wf)

lemma fold_board_after_keeps_marker:
  "wf_board b \<Longrightarrow> get_cell b row col = Inr (Some m) \<Longrightarrow>
     get_cell (fold board_after ops b) row col = Inr (Some m)"
  by (induction ops arbitrary: b) (simp_all add: board_after_keeps_marker board_after_wf)

lemma choice_mem: "xs \<noteq> [] \<Longrightarrow> \<exists>x \<in> set xs. choice k xs = Inr x"
  by (simp add: choice_def)

lemma make_move_wf:
  assumes "wf_board b" "empties b \<noteq> []"
  obtains i j where "i < 3" "j < 3" "b ! i ! j = None" "(int i, int j) \<in> set (empties b)"
    "place_marker b (int i) (int j) marker = (Inr (), b[i := (b ! i)[j := marker]])"
    "make_move marker k b = (Inr (int i, int j), b[i := (b ! i)[j := marker]])"
proof -
  from assms(2) obtain row col where mem: "(row, col) \<in> set (empties b)"
    and ch: "choice k (empties b) = Inr (row, col)"
    using choice_mem [of "empties b" k] by auto
  from mem have c: "(row, col) \<in> set coords" and e: "b ! nat row ! nat col = None"
    by (simp_all add: empties_def)
  from c have ix: "norm_index 3 row = Some (nat row)" "norm_index 3 col = Some (nat col)"
    by (simp_all add: coords_range)
  then have lt: "nat row < 3" "nat col < 3"
    by (simp_all add: norm_index_less)
  from c have nn: "int (nat row) = row" "int (nat col) = col"
    by (auto simp: coords_def range3_def)
  have pm: "place_marker b row col marker =
              (Inr (), b[nat row := (b ! nat row)[nat col := marker]])"
    using assms(1) ix e by (simp add: place_marker_wf)
  have mm: "make_move marker k b =
              (Inr (row, col), b[nat row := (b ! nat row)[nat col := marker]])"
    using assms ch pm by (simp add: make_move_def available_moves_wf)
  show thesis
    using that [of "nat row" "nat col"] lt e mem pm mm nn by simp
qed

subsection \<open>One turn of the game loop, and all of them\<close>

lemma Board_str_shape:
  "\<exists>s. Board_str [[a0, a1, a2], [b0, b1, b2], [c0, c1, c2]] = Inr s"
  by (simp add: Board_str_def range3_def index_defs Let_def)

lemma Board_str_wf: "wf_board b \<Longrightarrow> \<exists>s. Board_str b = Inr s"
  by (erule wf_board_shape) (simp only: Board_str_shape)

lemma has_line_update:
  assumes "wf_board b" "i < 3" "j < 3" "v \<noteq> q" "has_line (b[i := (b ! i)[j := v]]) q"
  shows "has_line b q"
proof -
  have "b ! i' ! j' = q" if "b[i := (b ! i)[j := v]] ! i' ! j' = q" for i' j'
    using that assms(1-4) by (auto simp: cell_update split: if_splits)
  with assms(5) show ?thesis
    unfolding has_line_def by fast
qed

lemma check_draw_wf:
  "wf_board b \<Longrightarrow>
     check_draw b =
       Inr (empties b = [] \<and> \<not> has_line b (Some ''X'') \<and> \<not> has_line b (Some ''O''))"
  by (simp add: check_draw_def is_full_wf check_win_wf no_empty_cell_wf)

lemma run_loop_step:
  assumes wf: "wf_board (board g)"
    and bots: "bot_x g = Some ''X''" "bot_o g = Some ''O''"
    and cur: "current_player g = ''X'' \<or> current_player g = ''O''"
    and nowin: "\<not> has_line (board g) (Some ''X'')" "\<not> has_line (board g) (Some ''O'')"
    and len: "length (empties (board g)) = Suc k"
  shows "\<exists>b' s. wf_board b' \<and> length (empties b') = k \<and>
           (\<not> has_line b' (Some (current_player g)) \<longrightarrow>
              \<not> has_line b' (Some ''X'') \<and> \<not> has_line b' (Some ''O'')) \<and>
           run_loop rnd n g out =
             (if has_line b' (Some (current_player g)) then
                Some (Won (current_player g), Suc n, g\<lparr>board := b'\<rparr>,
                  out @ [newline @ ''Player '' @ current_player g @ '':'', s,
                         newline @ ''PLAYER '' @ current_player g @ '' WON!''])
              else if k = 0 then
                Some (Draw, Suc n, g\<lparr>board := b'\<rparr>,
                  out @ [newline @ ''Player '' @ current_player g @ '':'', s,
                         newline @ ''GAME DRAW!''])
              else
                run_loop rnd (Suc n)
                  (g\<lparr>board := b',
                     current_player := if current_player g = ''X'' then ''O'' else ''X''\<rparr>)
                  (out @ [newline @ ''Player '' @ current_player g @ '':'', s]))"
proof -
  let ?p = "current_player g"
  let ?b = "board g"
  from len have ne: "empties ?b \<noteq> []"
    by auto
  from wf ne obtain i j where ij: "i < 3" "j < 3" "?b ! i ! j = None"
    and mm: "make_move (Some ?p) (rnd n) ?b =
               (Inr (int i, int j), ?b[i := (?b ! i)[j := Some ?p]])"
    by (rule make_move_wf)
  let ?b' = "?b[i := (?b ! i)[j := Some ?p]]"
  have mv: "(if ?p = ''X'' then make_move (bot_x g) (rnd n) ?b
             else make_move (bot_o g) (rnd n) ?b) = (Inr (int i, int j), ?b')"
    using cur bots mm by auto
  have wf': "wf_board ?b'"
    using wf ij(1) by (rule wf_board_update)
  have len': "length (empties ?b') = k"
    using empties_update_marker [OF wf ij, of ?p] len by simp
  from Board_str_wf [OF wf'] obtain s where s: "Board_str ?b' = Inr s"
    by blast
  have other: "\<not> has_line ?b' (Some q)" if "q \<noteq> ?p" "\<not> has_line ?b (Some q)" for q
    using has_line_update [OF wf ij(1,2), of "Some ?p" "Some q"] that by auto
  have keep: "\<not> has_line ?b' (Some ''X'') \<and> \<not> has_line ?b' (Some ''O'')"
    if "\<not> has_line ?b' (Some ?p)"
    using that cur nowin other [of "''X''"] other [of "''O''"] by auto
  have draw: "check_draw ?b' = Inr (k = 0)" if "\<not> has_line ?b' (Some ?p)"
    using keep [OF that] len' by (auto simp: check_draw_wf [OF wf'])
  have run: "run_loop rnd n g out =
             (if has_line ?b' (Some ?p) then
                Some (Won ?p, Suc n, g\<lparr>board := ?b'\<rparr>,
                  out @ [newline @ ''Player '' @ ?p @ '':'', s,
                         newline @ ''PLAYER '' @ ?p @ '' WON!''])
              else if k = 0 then
                Some (Draw, Suc n, g\<lparr>board := ?b'\<rparr>,
                  out @ [newline @ ''Player '' @ ?p @ '':'', s, newline @ ''GAME DRAW!''])
              else
                run_loop rnd (Suc n)
                  (g\<lparr>board := ?b', current_player := if ?p = ''X'' then ''O'' else ''X''\<rparr>)
                  (out @ [newline @ ''Player '' @ ?p @ '':'', s]))"
    by (subst run_loop.simps)
      (simp add: Let_def mv s check_win_wf [OF wf'] draw)
  from wf' len' keep run show ?thesis
    by blast
qed


lemma run_loop_ends:
  assumes "wf_board (board g)" "bot_x g = Some ''X''" "bot_o g = Some ''O''"
    and "current_player g = ''X'' \<or> current_player g = ''O''"
    and "\<not> has_line (board g) (Some ''X'')" "\<not> has_line (board g) (Some ''O'')"
    and "length (empties (board g)) = Suc k"
  shows "\<exists>e m g' out'. run_loop rnd n g out = Some (e, m, g', out') \<and>
           n < m \<and> m \<le> n + Suc k \<and>
           (e = Won ''X'' \<and> last out' = newline @ ''PLAYER X WON!'' \<or>
            e = Won ''O'' \<and> last out' = newline @ ''PLAYER O WON!'' \<or>
            e = Draw \<and> last out' = newline @ ''GAME DRAW!'')"
  using assms
proof (induction k arbitrary: n g out)
  case 0
  from run_loop_step [OF "0.prems", of rnd n out] "0.prems"(4) show ?case
    by (auto split: if_splits)
next
  case (Suc k)
  from run_loop_step [OF Suc.prems, of rnd n out] obtain b' s
    where wf': "wf_board b'" and len': "length (empties b') = Suc k"
      and keep: "\<not> has_line b' (Some (current_player g)) \<Longrightarrow>
                   \<not> has_line b' (Some ''X'') \<and> \<not> has_line b' (Some ''O'')"
      and run: "run_loop rnd n g out =
             (if has_line b' (Some (current_player g)) then
                Some (Won (current_player g), Suc n, g\<lparr>board := b'\<rparr>,
                  out @ [newline @ ''Player '' @ current_player g @ '':'', s,
                         newline @ ''PLAYER '' @ current_player g @ '' WON!''])
              else if Suc k = 0 then
                Some (Draw, Suc n, g\<lparr>board := b'\<rparr>,
                  out @ [newline @ ''Player '' @ current_player g @ '':'', s,
                         newline @ ''GAME DRAW!''])
              else
                run_loop rnd (Suc n)
                  (g\<lparr>board := b',
                     current_player := if current_player g = ''X'' then ''O'' else ''X''\<rparr>)
                  (out @ [newline @ ''Player '' @ current_player g @ '':'', s]))"
    by blast
  show ?case
  proof (cases "has_line b' (Some (current_player g))")
    case True
    with run Suc.prems(4) show ?thesis
      by auto
  next
    case False
    let ?g = "g\<lparr>board := b',
                 current_player := if current_player g = ''X'' then ''O'' else ''X''\<rparr>"
    let ?out = "out @ [newline @ ''Player '' @ current_player g @ '':'', s]"
    have "\<exists>e m g' out'. run_loop rnd (Suc n) ?g ?out = Some (e, m, g', out') \<and>
           Suc n < m \<and> m \<le> Suc n + Suc k \<and>
           (e = Won ''X'' \<and> last out' = newline @ ''PLAYER X WON!'' \<or>
            e = Won ''O'' \<and> last out' = newline @ ''PLAYER O WON!'' \<or>
            e = Draw \<and> last out' = newline @ ''GAME DRAW!'')"
      using wf' len' keep [OF False] Suc.prems(2,3)
      by (intro Suc.IH) simp_all
    with run False show ?thesis
      by (auto simp del: run_loop.simps)
  qed
qed

lemma empties_Board_init: "length (empties Board_init) = 9"
  by (simp add: empties_def coords_def Board_init_def range3_def)

lemma no_line_Board_init: "\<not> has_line Board_init (Some m)"
  by (simp add: has_line_def winning_lines_def Board_init_def range3_def)

text \<open>
  Two runs, computed: every draw 0 (each bot takes the first empty cell) lets \<^verbatim>\<open>X\<close> win
  at the seventh move; the second stream of draws fills the board of
  \<^verbatim>\<open>test_check_draw\<close> in nine moves.
\<close>

lemma run_first_choice:
  "map_option (\<lambda>(e, m, g, out). (e, m, board g, last out)) (main (\<lambda>_. 0)) =
     Some (Won ''X'', 7,
       [[Some ''X'', Some ''O'', Some ''X''], [Some ''O'', Some ''X'', Some ''O''],
        [Some ''X'', None, None]],
       newline @ ''PLAYER X WON!'')"
  by code_simp

lemma run_nine_moves:
  "map_option (\<lambda>(e, m, g, out). (e, m, board g, last out))
     (main (\<lambda>n. [0, 0, 0, 1, 0, 0, 1, 0, 0] ! n)) =
     Some (Draw, 9,
       [[Some ''X'', Some ''O'', Some ''X''], [Some ''X'', Some ''O'', Some ''O''],
        [Some ''O'', Some ''X'', Some ''X'']],
       newline @ ''GAME DRAW!'')"
  by code_simp

section \<open>The claims\<close>

text \<open>
  C1. On every three-by-three board and for every marker, \<^verbatim>\<open>check_win(marker)\<close> returns
  normally, and it returns true if and only if one of the eight winning lines (three
  rows, three columns, the two diagonals) has all three cells equal to the marker. The
  check is a function of the board alone: it has no board to hand back, so the board
  after it is the board before it.
\<close>

theorem check_win_iff_line:
  assumes "wf_board b"
  shows "check_win b marker = Inr (has_line b marker)"
proof -
  from assms obtain a0 a1 a2 b0 b1 b2 c0 c1 c2 where
    "b = [[a0, a1, a2], [b0, b1, b2], [c0, c1, c2]]"
    by (rule wf_board_shape)
  then show ?thesis
    by (simp only: check_win_shape has_line_shape)
qed

theorem check_win_iff_line_witness:
  "wf_board [[Some ''O'', None, Some ''X''], [None, Some ''X'', Some ''O''], [Some ''X'', None, None]] \<and>
   check_win [[Some ''O'', None, Some ''X''], [None, Some ''X'', Some ''O''], [Some ''X'', None, None]]
     (Some ''X'') = Inr True \<and>
   has_line [[Some ''O'', None, Some ''X''], [None, Some ''X'', Some ''O''], [Some ''X'', None, None]]
     (Some ''X'')"
  using check_win_iff_line
    [of "[[Some ''O'', None, Some ''X''], [None, Some ''X'', Some ''O''], [Some ''X'', None, None]]"
      "Some ''X''"]
  by (simp add: wf_board_def has_line_def winning_lines_def)

text \<open>
  C2. On every three-by-three board \<^verbatim>\<open>check_draw()\<close> returns normally, and it returns
  true if and only if the board is full and \<^verbatim>\<open>check_win\<close> is false for \<^verbatim>\<open>X\<close> and for
  \<^verbatim>\<open>O\<close>, where \<^verbatim>\<open>is_full\<close> and \<^verbatim>\<open>check_win\<close> return what their names say. So a full board
  on which a marker has a line is no draw.
\<close>

theorem check_draw_iff:
  assumes "wf_board b"
  shows "check_draw b =
           Inr (no_empty_cell b \<and> \<not> has_line b (Some ''X'') \<and> \<not> has_line b (Some ''O'')) \<and>
         is_full b = Inr (no_empty_cell b) \<and>
         check_win b (Some ''X'') = Inr (has_line b (Some ''X'')) \<and>
         check_win b (Some ''O'') = Inr (has_line b (Some ''O''))"
  using assms by (simp add: check_draw_def is_full_wf check_win_wf)

text \<open>
  The instances are the drawn board of \<^verbatim>\<open>test_check_draw\<close> and a full board whose
  first column is a line of \<^verbatim>\<open>X\<close>.
\<close>

theorem check_draw_iff_witness:
  "wf_board [[Some ''X'', Some ''O'', Some ''X''], [Some ''X'', Some ''O'', Some ''O''],
             [Some ''O'', Some ''X'', Some ''X'']] \<and>
   check_draw [[Some ''X'', Some ''O'', Some ''X''], [Some ''X'', Some ''O'', Some ''O''],
             [Some ''O'', Some ''X'', Some ''X'']] = Inr True \<and>
   wf_board [[Some ''X'', Some ''O'', Some ''X''], [Some ''X'', Some ''O'', Some ''O''],
             [Some ''X'', Some ''X'', Some ''O'']] \<and>
   is_full [[Some ''X'', Some ''O'', Some ''X''], [Some ''X'', Some ''O'', Some ''O''],
             [Some ''X'', Some ''X'', Some ''O'']] = Inr True \<and>
   check_draw [[Some ''X'', Some ''O'', Some ''X''], [Some ''X'', Some ''O'', Some ''O''],
             [Some ''X'', Some ''X'', Some ''O'']] = Inr False"
  using check_draw_iff
    [of "[[Some ''X'', Some ''O'', Some ''X''], [Some ''X'', Some ''O'', Some ''O''],
             [Some ''O'', Some ''X'', Some ''X'']]"]
    check_draw_iff
    [of "[[Some ''X'', Some ''O'', Some ''X''], [Some ''X'', Some ''O'', Some ''O''],
             [Some ''X'', Some ''X'', Some ''O'']]"]
  by (simp add: wf_board_def has_line_def winning_lines_def no_empty_cell_def)

text \<open>
  C3. The run of \<^verbatim>\<open>run_game\<close> that \<^verbatim>\<open>main\<close> starts (a new board, a bot for \<^verbatim>\<open>X\<close>, a bot for \<^verbatim>\<open>O\<close>,
  \<^verbatim>\<open>X\<close> to move) ends for every sequence of random draws: the loop returns, after at
  most 9 moves, at the \<^verbatim>\<open>break\<close> of a win of \<^verbatim>\<open>X\<close>, of a win of \<^verbatim>\<open>O\<close> or of a draw,
  never at the \<^verbatim>\<open>break\<close> of a caught error nor with an exception, and the last line
  printed is the matching one of \<^verbatim>\<open>PLAYER X WON!\<close>, \<^verbatim>\<open>PLAYER O WON!\<close>, \<^verbatim>\<open>GAME DRAW!\<close>.
\<close>

theorem main_ends:
  "\<exists>e m g out.
     run_game rnd (GameRunner_init Board_init (Some ''X'') (Some ''O'')) = Some (e, m, g, out) \<and>
     main rnd = Some (e, m, g, out) \<and> m \<le> 9 \<and>
     (e = Won ''X'' \<and> last out = newline @ ''PLAYER X WON!'' \<or>
      e = Won ''O'' \<and> last out = newline @ ''PLAYER O WON!'' \<or>
      e = Draw \<and> last out = newline @ ''GAME DRAW!'')"
proof -
  let ?g = "GameRunner_init Board_init (Some ''X'') (Some ''O'')"
  obtain s where s: "Board_str Board_init = Inr s"
    using Board_str_wf [OF wf_Board_init] by blast
  have "\<exists>e m g' out'.
          run_loop rnd 0 ?g
            [''Starting Tic-Tac-Toe Bot vs Bot game:'', newline @ ''Initial board:'', s] =
            Some (e, m, g', out') \<and>
          0 < m \<and> m \<le> 0 + Suc 8 \<and>
          (e = Won ''X'' \<and> last out' = newline @ ''PLAYER X WON!'' \<or>
           e = Won ''O'' \<and> last out' = newline @ ''PLAYER O WON!'' \<or>
           e = Draw \<and> last out' = newline @ ''GAME DRAW!'')"
    by (rule run_loop_ends)
      (simp_all add: GameRunner_init_def wf_Board_init no_line_Board_init empties_Board_init)
  then show ?thesis
    by (auto simp: main_def run_game_def GameRunner_init_def s)
qed

text \<open>
  C4. On a three-by-three board, for row and column in 0..2 and a marker \<^verbatim>\<open>X\<close> or \<^verbatim>\<open>O\<close>:
  if the cell is not empty, \<^verbatim>\<open>place_marker\<close> raises the \<^verbatim>\<open>ValueError\<close> that reports the
  occupied cell and the board afterwards is the board before; if the cell is empty,
  \<^verbatim>\<open>place_marker\<close> returns normally and \<^verbatim>\<open>get_cell\<close> at the same place then returns the
  marker.
\<close>

theorem place_marker_in_bounds:
  assumes "wf_board b" "0 \<le> row" "row \<le> 2" "0 \<le> col" "col \<le> 2"
    and "marker = ''X'' \<or> marker = ''O''"
  shows "(get_cell b row col \<noteq> Inr None \<longrightarrow>
            place_marker b row col (Some marker) =
              (Inl (ValueError (occupied_message row col)), b)) \<and>
         (get_cell b row col = Inr None \<longrightarrow>
            fst (place_marker b row col (Some marker)) = Inr () \<and>
            get_cell (snd (place_marker b row col (Some marker))) row col = Inr (Some marker))"
proof -
  have ix: "norm_index 3 row = Some (nat row)" "norm_index 3 col = Some (nat col)"
    using assms(2-5) by (simp_all add: norm_index_def)
  have lt: "nat row < 3" "nat col < 3"
    using assms(2-5) by simp_all
  show ?thesis
    using assms(1) lt
    by (auto simp: get_cell_def getitem2_wf place_marker_wf ix wf_board_update cell_update
        split: option.splits)
qed

text \<open>
  The instances: \<^verbatim>\<open>O\<close> on the cell (0,0) that holds \<^verbatim>\<open>X\<close>, as in
  \<^verbatim>\<open>test_place_marker_on_occupied_cell\<close>, and \<^verbatim>\<open>O\<close> on the empty cell (1,1).
\<close>

theorem place_marker_in_bounds_witness:
  "wf_board [[Some ''X'', None, None], [None, None, None], [None, None, None]] \<and>
   (0::int) \<le> 0 \<and> (0::int) \<le> 2 \<and> (0::int) \<le> 1 \<and> (1::int) \<le> 2 \<and>
   get_cell [[Some ''X'', None, None], [None, None, None], [None, None, None]] 0 0
     \<noteq> Inr None \<and>
   place_marker [[Some ''X'', None, None], [None, None, None], [None, None, None]] 0 0
     (Some ''O'') =
     (Inl (ValueError ''Cell (0, 0) already occupied''),
      [[Some ''X'', None, None], [None, None, None], [None, None, None]]) \<and>
   get_cell [[Some ''X'', None, None], [None, None, None], [None, None, None]] 1 1
     = Inr None \<and>
   get_cell
     (snd (place_marker [[Some ''X'', None, None], [None, None, None], [None, None, None]]
        1 1 (Some ''O''))) 1 1 = Inr (Some ''O'')"
proof -
  let ?B = "[[Some ''X'', None, None], [None, None, None], [None, None, None]]"
  have wf: "wf_board ?B"
    by (simp add: wf_board_def)
  have occ: "get_cell ?B 0 0 \<noteq> Inr None" and emp: "get_cell ?B 1 1 = Inr None"
    by (simp_all add: get_cell_def index_defs)
  have msg: "occupied_message 0 0 = ''Cell (0, 0) already occupied''"
    by (simp add: occupied_message_def str_int_def str_nat.simps)
  from place_marker_in_bounds [OF wf, of 0 0 "''O''"] occ
  have 1: "place_marker ?B 0 0 (Some ''O'') = (Inl (ValueError (occupied_message 0 0)), ?B)"
    by simp
  from place_marker_in_bounds [OF wf, of 1 1 "''O''"] emp
  have 2: "get_cell (snd (place_marker ?B 1 1 (Some ''O''))) 1 1 = Inr (Some ''O'')"
    by simp
  from wf occ emp 1 2 msg show ?thesis
    by simp
qed

text \<open>
  C5. On a three-by-three board \<^verbatim>\<open>make_move\<close> raises the \<^verbatim>\<open>ValueError\<close> "No available
  moves" if and only if \<^verbatim>\<open>available_moves()\<close> is empty, and then the board afterwards is
  the board before. Otherwise it takes one pair of \<^verbatim>\<open>available_moves()\<close>, places the
  bot's marker there with \<^verbatim>\<open>place_marker\<close>, which returns normally, and returns that
  pair.
\<close>

theorem make_move_cases:
  assumes "wf_board b"
  shows "(fst (make_move marker k b) = Inl (ValueError ''No available moves'') \<longleftrightarrow>
            available_moves b = Inr []) \<and>
         (available_moves b = Inr [] \<longrightarrow> snd (make_move marker k b) = b) \<and>
         (available_moves b \<noteq> Inr [] \<longrightarrow>
            (\<exists>moves row col. available_moves b = Inr moves \<and> (row, col) \<in> set moves \<and>
               fst (place_marker b row col marker) = Inr () \<and>
               make_move marker k b = (Inr (row, col), snd (place_marker b row col marker))))"
proof (cases "empties b = []")
  case True
  with assms show ?thesis
    by (simp add: make_move_def available_moves_wf)
next
  case False
  with assms obtain i j where "(int i, int j) \<in> set (empties b)"
    "place_marker b (int i) (int j) marker = (Inr (), b[i := (b ! i)[j := marker]])"
    "make_move marker k b = (Inr (int i, int j), b[i := (b ! i)[j := marker]])"
    by (rule make_move_wf)
  with assms False show ?thesis
    by (auto simp: available_moves_wf)
qed

text \<open>
  The instances: the full board of \<^verbatim>\<open>test_make_move_on_full_board\<close>, and a new board.
\<close>

theorem make_move_cases_witness:
  "wf_board [[Some ''X'', Some ''O'', Some ''X''], [Some ''O'', Some ''X'', Some ''O''],
             [Some ''X'', Some ''O'', Some ''X'']] \<and>
   available_moves [[Some ''X'', Some ''O'', Some ''X''], [Some ''O'', Some ''X'', Some ''O''],
             [Some ''X'', Some ''O'', Some ''X'']] = Inr [] \<and>
   make_move (Some ''X'') 7 [[Some ''X'', Some ''O'', Some ''X''],
             [Some ''O'', Some ''X'', Some ''O''], [Some ''X'', Some ''O'', Some ''X'']] =
     (Inl (ValueError ''No available moves''),
      [[Some ''X'', Some ''O'', Some ''X''], [Some ''O'', Some ''X'', Some ''O''],
       [Some ''X'', Some ''O'', Some ''X'']]) \<and>
   wf_board Board_init \<and> available_moves Board_init \<noteq> Inr [] \<and>
   (\<exists>row col. make_move (Some ''X'') 7 Board_init =
      (Inr (row, col), snd (place_marker Board_init row col (Some ''X''))))"
proof -
  let ?F = "[[Some ''X'', Some ''O'', Some ''X''], [Some ''O'', Some ''X'', Some ''O''],
             [Some ''X'', Some ''O'', Some ''X'']]"
  have wf: "wf_board ?F"
    by (simp add: wf_board_def)
  have av: "available_moves ?F = Inr []"
    by (simp add: available_moves_def coords_def range3_def index_defs)
  have av0: "available_moves Board_init \<noteq> Inr []"
    by (simp add: available_moves_def coords_def Board_init_def range3_def index_defs)
  from make_move_cases [OF wf, of "Some ''X''" 7] av
  have 1: "make_move (Some ''X'') 7 ?F = (Inl (ValueError ''No available moves''), ?F)"
    by (simp add: prod_eq_iff)
  from make_move_cases [OF wf_Board_init, of "Some ''X''" 7] av0
  have 2: "\<exists>row col. make_move (Some ''X'') 7 Board_init =
      (Inr (row, col), snd (place_marker Board_init row col (Some ''X'')))"
    by blast
  from wf av 1 wf_Board_init av0 2 show ?thesis
    by (intro conjI)
qed

text \<open>
  C6, as stated, fails: on a new board \<^verbatim>\<open>get_cell(-1, 0)\<close> has a row outside 0..2 and
  returns the cell (2,0) instead of raising \<^verbatim>\<open>IndexError\<close>, because a negative
  subscript of a list counts from its end.
\<close>

theorem get_cell_negative_index: "get_cell Board_init (- 1) 0 = Inr None"
  by (simp add: get_cell_def Board_init_def range3_def index_defs)

text \<open>
  C6, amended. On a three-by-three board \<^verbatim>\<open>get_cell(row, col)\<close> raises \<^verbatim>\<open>IndexError\<close> if
  and only if row or col lies outside -3..2. Inside that range it returns a cell, the
  indices taken modulo 3 (so -1 addresses the last row or column); for row and col in
  0..2 this is the cell at (row, col) itself.
\<close>

theorem get_cell_range:
  assumes "wf_board b"
  shows "(get_cell b row col = Inl IndexError \<longleftrightarrow>
            \<not> (- 3 \<le> row \<and> row \<le> 2 \<and> - 3 \<le> col \<and> col \<le> 2)) \<and>
         (- 3 \<le> row \<and> row \<le> 2 \<and> - 3 \<le> col \<and> col \<le> 2 \<longrightarrow>
            get_cell b row col = Inr (b ! nat (row mod 3) ! nat (col mod 3))) \<and>
         (0 \<le> row \<and> row \<le> 2 \<and> 0 \<le> col \<and> col \<le> 2 \<longrightarrow>
            get_cell b row col = Inr (b ! nat row ! nat col))"
  using assms by (auto simp: get_cell_def getitem2_wf norm_index_3)

theorem get_cell_range_witness:
  "wf_board [[Some ''X'', None, None], [None, None, None], [None, None, Some ''O'']] \<and>
   get_cell [[Some ''X'', None, None], [None, None, None], [None, None, Some ''O'']] 3 0
     = Inl IndexError \<and>
   get_cell [[Some ''X'', None, None], [None, None, None], [None, None, Some ''O'']] 0 (- 4)
     = Inl IndexError \<and>
   get_cell [[Some ''X'', None, None], [None, None, None], [None, None, Some ''O'']] (- 1) (- 1)
     = Inr (Some ''O'') \<and>
   get_cell [[Some ''X'', None, None], [None, None, None], [None, None, Some ''O'']] 0 0
     = Inr (Some ''X'')"
proof -
  let ?B = "[[Some ''X'', None, None], [None, None, None], [None, None, Some ''O'']]"
  have wf: "wf_board ?B"
    by (simp add: wf_board_def)
  from get_cell_range [OF wf, of 3 0] have 1: "get_cell ?B 3 0 = Inl IndexError"
    by simp
  from get_cell_range [OF wf, of 0 "- 4"] have 2: "get_cell ?B 0 (- 4) = Inl IndexError"
    by simp
  from get_cell_range [OF wf, of "- 1" "- 1"] have 3: "get_cell ?B (- 1) (- 1) = Inr (Some ''O'')"
    by simp
  from get_cell_range [OF wf, of 0 0] have 4: "get_cell ?B 0 0 = Inr (Some ''X'')"
    by simp
  from wf 1 2 3 4 show ?thesis
    by simp
qed

text \<open>
  C7, as stated, fails: \<^verbatim>\<open>place_marker(0, 0, None)\<close> on a new board is a successful call,
  and \<^verbatim>\<open>available_moves()\<close> returns the same nine places before and after it.
\<close>

theorem place_None_keeps_count:
  "fst (place_marker Board_init 0 0 None) = Inr () \<and>
   available_moves Board_init = Inr coords \<and>
   available_moves (snd (place_marker Board_init 0 0 None)) = Inr coords \<and>
   length coords = 9"
  by (simp add: place_marker_def available_moves_def coords_def Board_init_def range3_def
      index_defs)

text \<open>
  C7, amended. On a new board \<^verbatim>\<open>available_moves()\<close> has exactly 9 elements, and after
  every successful call of \<^verbatim>\<open>place_marker\<close> whose marker is not \<^verbatim>\<open>None\<close> the number of
  elements of \<^verbatim>\<open>available_moves()\<close> is smaller by exactly 1.
\<close>

theorem available_moves_count:
  "(\<exists>ms. available_moves Board_init = Inr ms \<and> length ms = 9) \<and>
   (wf_board b \<and> place_marker b row col (Some m) = (Inr (), b') \<longrightarrow>
      (\<exists>ms ms'. available_moves b = Inr ms \<and> available_moves b' = Inr ms' \<and>
         length ms' + 1 = length ms))"
proof (intro conjI impI)
  show "\<exists>ms. available_moves Board_init = Inr ms \<and> length ms = 9"
    by (simp add: available_moves_def coords_def Board_init_def range3_def index_defs)
next
  assume a: "wf_board b \<and> place_marker b row col (Some m) = (Inr (), b')"
  then have wf: "wf_board b"
    by simp
  from a obtain i j where ij: "i < 3" "j < 3" "b ! i ! j = None"
    and b': "b' = b[i := (b ! i)[j := Some m]]"
    by (auto elim: place_marker_success)
  have "wf_board b'"
    using wf ij b' by (simp add: wf_board_update)
  then show "\<exists>ms ms'. available_moves b = Inr ms \<and> available_moves b' = Inr ms' \<and>
         length ms' + 1 = length ms"
    using wf b' empties_update_marker [OF wf ij, of m] by (simp add: available_moves_wf)
qed


theorem available_moves_count_witness:
  "wf_board Board_init \<and>
   place_marker Board_init 0 0 (Some ''X'') =
     (Inr (), [[Some ''X'', None, None], [None, None, None], [None, None, None]]) \<and>
   (\<exists>ms ms'. available_moves Board_init = Inr ms \<and>
      available_moves [[Some ''X'', None, None], [None, None, None], [None, None, None]] =
        Inr ms' \<and>
      length ms' + 1 = length ms)"
proof -
  let ?B = "[[Some ''X'', None, None], [None, None, None], [None, None, None]]"
  have p: "place_marker Board_init 0 0 (Some ''X'') = (Inr (), ?B)"
    by (simp add: place_marker_def Board_init_def range3_def index_defs)
  from available_moves_count [of Board_init 0 0 "''X''" ?B] wf_Board_init p
  show ?thesis
    by blast
qed

text \<open>
  C8. Write-once: on every reachable board, a place where \<^verbatim>\<open>get_cell\<close> returns a marker
  returns the same marker after any one operation of \<^verbatim>\<open>Board\<close> (\<^verbatim>\<open>get_cell\<close>,
  \<^verbatim>\<open>place_marker\<close>, \<^verbatim>\<open>is_full\<close>, \<^verbatim>\<open>available_moves\<close>, the rendering), whatever its
  arguments and whether it raises or not, and hence after any sequence of them.
\<close>

theorem write_once:
  assumes "reachable b" "get_cell b row col = Inr (Some m)"
  shows "get_cell (board_after op b) row col = Inr (Some m) \<and>
         get_cell (fold board_after ops b) row col = Inr (Some m)"
  using assms
  by (simp add: reachable_wf board_after_keeps_marker fold_board_after_keeps_marker)

theorem write_once_witness:
  "reachable (board_after (PlaceMarker 0 0 (Some ''X'')) Board_init) \<and>
   get_cell (board_after (PlaceMarker 0 0 (Some ''X'')) Board_init) 0 0 = Inr (Some ''X'') \<and>
   get_cell
     (board_after (PlaceMarker 0 0 (Some ''O''))
        (board_after (PlaceMarker 0 0 (Some ''X'')) Board_init)) 0 0 = Inr (Some ''X'') \<and>
   get_cell
     (fold board_after [PlaceMarker 0 0 None, IsFull, PlaceMarker (- 3) (- 3) (Some ''O'')]
        (board_after (PlaceMarker 0 0 (Some ''X'')) Board_init)) 0 0 = Inr (Some ''X'')"
proof -
  let ?B = "board_after (PlaceMarker 0 0 (Some ''X'')) Board_init"
  have r: "reachable ?B"
    by (rule reachable.step [OF reachable.fresh])
  have g: "get_cell ?B 0 0 = Inr (Some ''X'')"
    by (simp add: get_cell_def place_marker_def Board_init_def range3_def index_defs)
  from write_once [OF r g, of "PlaceMarker 0 0 (Some ''O'')"
      "[PlaceMarker 0 0 None, IsFull, PlaceMarker (- 3) (- 3) (Some ''O'')]"] r g
  show ?thesis
    by (intro conjI) simp_all
qed



text \<open>
  C9. The board of \<^verbatim>\<open>test_string_representation\<close>: \<^verbatim>\<open>X\<close> placed at (0,0) and \<^verbatim>\<open>O\<close>
  at (1,1) on a new board, both placements succeeding. Its string is
  \<^verbatim>\<open>X| | \<close>, \<^verbatim>\<open>-+-+-\<close>, \<^verbatim>\<open> |O| \<close>, \<^verbatim>\<open>-+-+-\<close>, \<^verbatim>\<open> | | \<close> joined by line feeds: an empty
  cell is one space, cells are joined by a bar, rows are separated by the divider.
\<close>

theorem str_of_X00_O11:
  "place_marker Board_init 0 0 (Some ''X'') =
     (Inr (), [[Some ''X'', None, None], [None, None, None], [None, None, None]]) \<and>
   place_marker (snd (place_marker Board_init 0 0 (Some ''X''))) 1 1 (Some ''O'') =
     (Inr (), [[Some ''X'', None, None], [None, Some ''O'', None], [None, None, None]]) \<and>
   Board_str [[Some ''X'', None, None], [None, Some ''O'', None], [None, None, None]] =
     Inr (''X| | '' @ [CHR 0x0A] @ ''-+-+-'' @ [CHR 0x0A] @ '' |O| '' @ [CHR 0x0A] @
          ''-+-+-'' @ [CHR 0x0A] @ '' | | '')"
  by (simp add: place_marker_def Board_init_def range3_def getitem2_def getitem_def
      setitem2_def setitem_def norm_index_def Board_str_def newline_def)

text \<open>
  C10. \<^verbatim>\<open>place_marker\<close> does not look at its marker. On a three-by-three board, at a
  place where \<^verbatim>\<open>get_cell\<close> returns \<^verbatim>\<open>None\<close> (every empty cell with row and column in 0..2
  is one), \<^verbatim>\<open>place_marker(row, col, None)\<close> returns normally and leaves the board as it
  was: the cell is still empty, \<^verbatim>\<open>available_moves()\<close> is unchanged, and a second
  \<^verbatim>\<open>place_marker\<close> at the same place, with any marker, returns normally too.
\<close>

theorem place_None_no_effect:
  assumes "wf_board b" "get_cell b row col = Inr None"
  shows "place_marker b row col None = (Inr (), b) \<and>
         get_cell (snd (place_marker b row col None)) row col = Inr None \<and>
         available_moves (snd (place_marker b row col None)) = available_moves b \<and>
         fst (place_marker (snd (place_marker b row col None)) row col marker) = Inr ()"
proof -
  from assms obtain i j where ij: "norm_index 3 row = Some i" "norm_index 3 col = Some j"
    and e: "b ! i ! j = None"
    by (auto simp: get_cell_def getitem2_wf split: option.splits)
  have "b[i := (b ! i)[j := None]] = b"
    using e by (metis list_update_id)
  then have 1: "place_marker b row col None = (Inr (), b)"
    using assms(1) ij e by (simp add: place_marker_wf)
  have 2: "fst (place_marker b row col marker) = Inr ()"
    using assms(1) ij e by (simp add: place_marker_wf)
  show ?thesis
    using 1 2 assms(2) by simp
qed

theorem place_None_no_effect_witness:
  "wf_board Board_init \<and> get_cell Board_init 1 1 = Inr None \<and>
   place_marker Board_init 1 1 None = (Inr (), Board_init) \<and>
   fst (place_marker (snd (place_marker Board_init 1 1 None)) 1 1 (Some ''X'')) = Inr ()"
proof -
  have e: "get_cell Board_init 1 1 = Inr None"
    by (simp add: get_cell_def Board_init_def range3_def index_defs)
  note t = place_None_no_effect [OF wf_Board_init e, of "Some ''X''"]
  from t have 1: "place_marker Board_init 1 1 None = (Inr (), Board_init)"
    by (rule conjunct1)
  from t have 2: "fst (place_marker (snd (place_marker Board_init 1 1 None)) 1 1 (Some ''X'')) = Inr ()"
    by blast
  from wf_Board_init e 1 2 show ?thesis
    by (intro conjI)
qed

end
